theory Spec2Isabelle
  imports Complex_Main "HOL-Library.Sublist" "HOL-Library.Multiset"
begin

section \<open>JavaScript values used by the visitor check-in application\<close>

text \<open>
  Strings are lists of code units; the model covers code units below 256 (Isabelle's
  \<open>char\<close>). A field of a record received from the backend is \<open>None\<close> when it is
  missing, \<open>undefined\<close> or \<open>null\<close>, and \<open>Some s\<close> when it holds the string \<open>s\<close>.
\<close>

datatype js_error = TypeError | RangeError

definition is_space :: "char \<Rightarrow> bool" where
  \<comment> \<open>the regular expression class \<open>\s\<close> (also what \<open>trim\<close> removes), below 256\<close>
  "is_space c = (of_char c \<in> {9, 10, 11, 12, 13, 32, 160 :: nat})"

definition is_digit :: "char \<Rightarrow> bool" where
  \<comment> \<open>the class \<open>[0-9]\<close>\<close>
  "is_digit c = (48 \<le> (of_char c :: nat) \<and> (of_char c :: nat) \<le> 57)"

definition lower_char :: "char \<Rightarrow> char" where
  \<comment> \<open>the lower case of a code unit below 256: of \<open>A\<close> to \<open>Z\<close> and of the accented
      capitals from 192 to 222 (215 is the multiplication sign)\<close>
  "lower_char c =
     (let n = (of_char c :: nat)
      in if (65 \<le> n \<and> n \<le> 90) \<or> (192 \<le> n \<and> n \<le> 222 \<and> n \<noteq> 215)
         then char_of (n + 32) else c)"

definition toLowerCase :: "string \<Rightarrow> string" where
  "toLowerCase s = map lower_char s"

fun str_includes :: "string \<Rightarrow> string \<Rightarrow> bool" where
  \<comment> \<open>\<open>hay.includes(needle)\<close>\<close>
  "str_includes [] needle = (needle = [])"
| "str_includes (c # cs) needle = (prefix needle (c # cs) \<or> str_includes cs needle)"

definition trim :: "string \<Rightarrow> string" where
  "trim s = rev (dropWhile is_space (rev (dropWhile is_space s)))"

fun str_less :: "string \<Rightarrow> string \<Rightarrow> bool" where
  \<comment> \<open>the relational operator \<open><\<close> on two strings: code units, lexicographically\<close>
  "str_less [] [] = False"
| "str_less [] (y # ys) = True"
| "str_less (x # xs) [] = False"
| "str_less (x # xs) (y # ys) =
     ((of_char x :: nat) < of_char y \<or> (x = y \<and> str_less xs ys))"

definition str_ge :: "string \<Rightarrow> string \<Rightarrow> bool" where
  "str_ge a b = (\<not> str_less a b)"

definition str_le :: "string \<Rightarrow> string \<Rightarrow> bool" where
  "str_le a b = (\<not> str_less b a)"

definition or_str :: "string option \<Rightarrow> string option \<Rightarrow> string option" where
  \<comment> \<open>\<open>a || b\<close> on two possibly missing strings: the empty string is falsy\<close>
  "or_str a b = (case a of Some s \<Rightarrow> if s \<noteq> [] then Some s else b | None \<Rightarrow> b)"

definition or_default :: "string option \<Rightarrow> string \<Rightarrow> string" where
  \<comment> \<open>\<open>a || ''\<close> with a string literal as the last operand\<close>
  "or_default a d = (case a of Some s \<Rightarrow> if s \<noteq> [] then s else d | None \<Rightarrow> d)"

fun filter_e :: "('a \<Rightarrow> js_error + bool) \<Rightarrow> 'a list \<Rightarrow> js_error + 'a list" where
  \<comment> \<open>\<open>Array.prototype.filter\<close> with a callback that may throw: the first throw aborts\<close>
  "filter_e p [] = Inr []"
| "filter_e p (x # xs) =
     (case p x of
        Inl e \<Rightarrow> Inl e
      | Inr b \<Rightarrow> (case filter_e p xs of
                    Inl e \<Rightarrow> Inl e
                  | Inr ys \<Rightarrow> Inr (if b then x # ys else ys)))"

section \<open>Dates\<close>

text \<open>
  A timestamp field of a record (\<open>checkin_time\<close>, \<open>entry_time\<close>, \<open>created_at\<close>) is
  \<open>Absent\<close> when it is missing, \<open>undefined\<close> or the empty string, \<open>Null\<close> when it is
  \<open>null\<close>, \<open>Unparsable\<close> when it is a non-empty string that \<open>Date.parse\<close> rejects,
  and \<open>At t\<close> when it is a string that \<open>Date.parse\<close> maps to the time value \<open>t\<close>
  (milliseconds since the epoch). A time value is an \<open>int option\<close>, \<open>None\<close> being
  \<open>NaN\<close> (an invalid date).
\<close>

datatype timestamp = Absent | Null | Unparsable | At int

text \<open>
  The functions on time values are those of the \<open>Date\<close> object of the language, after
  its standard: \<open>Day\<close>, \<open>TimeWithinDay\<close>, \<open>WeekDay\<close>, \<open>DayFromYear\<close>,
  \<open>YearFromTime\<close>, \<open>MonthFromTime\<close>, \<open>DateFromTime\<close>, \<open>MakeDay\<close>, \<open>MakeDate\<close>,
  \<open>LocalTime\<close> and \<open>UTC\<close>, and on them \<open>toISOString\<close>, the getters, \<open>setDate\<close> and
  the constructor from year, month and day. Time values are not clipped to the range
  of \<open>Date\<close>.
\<close>

fun truthy :: "timestamp \<Rightarrow> bool" where
  "truthy Absent = False"
| "truthy Null = False"
| "truthy Unparsable = True"
| "truthy (At t) = True"

definition or_ts :: "timestamp \<Rightarrow> timestamp \<Rightarrow> timestamp" where
  \<comment> \<open>\<open>a || b\<close>\<close>
  "or_ts a b = (if truthy a then a else b)"

fun new_Date :: "timestamp \<Rightarrow> int option" where
  \<comment> \<open>\<open>new Date(v)\<close>: \<open>undefined\<close> and \<open>''\<close> give an invalid date, \<open>null\<close> the epoch\<close>
  "new_Date Absent = None"
| "new_Date Null = Some 0"
| "new_Date Unparsable = None"
| "new_Date (At t) = Some t"

definition msPerDay :: int where
  "msPerDay = 86400000"

definition Day :: "int \<Rightarrow> int" where
  "Day t = t div msPerDay"

definition TimeWithinDay :: "int \<Rightarrow> int" where
  "TimeWithinDay t = t mod msPerDay"

definition WeekDay :: "int \<Rightarrow> int" where
  "WeekDay t = (Day t + 4) mod 7"

definition DayFromYear :: "int \<Rightarrow> int" where
  \<comment> \<open>the day number of 1 January of year \<open>y\<close>\<close>
  "DayFromYear y =
     365 * (y - 1970) + (y - 1969) div 4 - (y - 1901) div 100 + (y - 1601) div 400"

definition DaysInYear :: "int \<Rightarrow> int" where
  "DaysInYear y =
     (if y mod 4 \<noteq> 0 then 365 else if y mod 100 \<noteq> 0 then 366
      else if y mod 400 \<noteq> 0 then 365 else 366)"

definition YearFromTime :: "int \<Rightarrow> int" where
  \<comment> \<open>the largest year \<open>y\<close> with \<open>DayFromYear y \<le> Day t\<close>, found from an estimate that is
      off by at most one\<close>
  "YearFromTime t =
     (let d = Day t; y0 = 1970 + (d * 10000) div 3652425
      in if DayFromYear (y0 + 1) \<le> d then y0 + 1
         else if DayFromYear y0 \<le> d then y0 else y0 - 1)"

definition InLeapYear :: "int \<Rightarrow> int" where
  "InLeapYear t = (if DaysInYear (YearFromTime t) = 366 then 1 else 0)"

definition DayWithinYear :: "int \<Rightarrow> int" where
  "DayWithinYear t = Day t - DayFromYear (YearFromTime t)"

definition MonthFromTime :: "int \<Rightarrow> int" where
  \<comment> \<open>0 is January\<close>
  "MonthFromTime t =
     (let d = DayWithinYear t; l = InLeapYear t
      in if d < 31 then 0 else if d < 59 + l then 1 else if d < 90 + l then 2
         else if d < 120 + l then 3 else if d < 151 + l then 4 else if d < 181 + l then 5
         else if d < 212 + l then 6 else if d < 243 + l then 7 else if d < 273 + l then 8
         else if d < 304 + l then 9 else if d < 334 + l then 10 else 11)"

definition month_first_day :: "int \<Rightarrow> int \<Rightarrow> int" where
  \<comment> \<open>the day within the year of the first of month \<open>m\<close> (0 to 11); \<open>l\<close> is 1 in a leap
      year\<close>
  "month_first_day m l =
     (if m = 0 then 0 else if m = 1 then 31 else if m = 2 then 59 + l
      else if m = 3 then 90 + l else if m = 4 then 120 + l else if m = 5 then 151 + l
      else if m = 6 then 181 + l else if m = 7 then 212 + l else if m = 8 then 243 + l
      else if m = 9 then 273 + l else if m = 10 then 304 + l else 334 + l)"

definition DateFromTime :: "int \<Rightarrow> int" where
  \<comment> \<open>the day of the month, from 1\<close>
  "DateFromTime t =
     DayWithinYear t - month_first_day (MonthFromTime t) (InLeapYear t) + 1"

definition MakeDay :: "int \<Rightarrow> int \<Rightarrow> int \<Rightarrow> int" where
  \<comment> \<open>the day number of the first of the month \<open>month\<close> of \<open>year\<close> (months beyond 0 to 11
      carry into the year), moved on by \<open>date - 1\<close> days\<close>
  "MakeDay year month date =
     (let ym = year + month div 12; mn = month mod 12
      in DayFromYear ym + month_first_day mn (if DaysInYear ym = 366 then 1 else 0)
           + date - 1)"

definition MakeDate :: "int \<Rightarrow> int \<Rightarrow> int" where
  "MakeDate day time = day * msPerDay + time"

definition digit_char :: "nat \<Rightarrow> char" where
  "digit_char d = char_of (48 + d)"

primrec pad_num :: "nat \<Rightarrow> nat \<Rightarrow> string" where
  \<comment> \<open>the last \<open>k\<close> decimal digits of \<open>n\<close>, zero padded\<close>
  "pad_num 0 n = []"
| "pad_num (Suc k) n = pad_num k (n div 10) @ [digit_char (n mod 10)]"

definition iso_year :: "int \<Rightarrow> string" where
  \<comment> \<open>four digits for the years 0 to 9999, otherwise a sign and six digits\<close>
  "iso_year y =
     (if 0 \<le> y \<and> y \<le> 9999 then pad_num 4 (nat y)
      else (if y < 0 then ''-'' else ''+'') @ pad_num 6 (nat \<bar>y\<bar>))"

definition iso_date :: "int \<Rightarrow> string" where
  \<comment> \<open>the part of \<open>toISOString()\<close> before the \<open>T\<close>: the calendar date in UTC\<close>
  "iso_date t =
     iso_year (YearFromTime t) @ ''-'' @ pad_num 2 (nat (MonthFromTime t + 1)) @ ''-''
       @ pad_num 2 (nat (DateFromTime t))"

definition toISOString_date :: "int option \<Rightarrow> js_error + string" where
  \<comment> \<open>\<open>d.toISOString().split('T')[0]\<close>; \<open>toISOString\<close> throws on an invalid date\<close>
  "toISOString_date d = (case d of None \<Rightarrow> Inl RangeError | Some t \<Rightarrow> Inr (iso_date t))"

text \<open>
  The environment of a run: the current moment and the offset of local time from UTC
  (taken as fixed), both in milliseconds.
\<close>

record env =
  now_ms :: int
  tza :: int

definition LocalTime :: "env \<Rightarrow> int \<Rightarrow> int" where
  "LocalTime e t = t + tza e"

definition UTC :: "env \<Rightarrow> int \<Rightarrow> int" where
  "UTC e t = t - tza e"

definition getFullYear :: "env \<Rightarrow> int \<Rightarrow> int" where
  "getFullYear e t = YearFromTime (LocalTime e t)"

definition getMonth :: "env \<Rightarrow> int \<Rightarrow> int" where
  "getMonth e t = MonthFromTime (LocalTime e t)"

definition getDate :: "env \<Rightarrow> int \<Rightarrow> int" where
  "getDate e t = DateFromTime (LocalTime e t)"

definition getDay :: "env \<Rightarrow> int \<Rightarrow> int" where
  "getDay e t = WeekDay (LocalTime e t)"

definition setDate :: "env \<Rightarrow> int \<Rightarrow> int \<Rightarrow> int" where
  \<comment> \<open>\<open>d.setDate(dt)\<close>: the new time value of \<open>d\<close>, which is also what the call returns\<close>
  "setDate e t dt =
     (let l = LocalTime e t
      in UTC e (MakeDate (MakeDay (YearFromTime l) (MonthFromTime l) dt) (TimeWithinDay l)))"

definition Date_ymd :: "env \<Rightarrow> int \<Rightarrow> int \<Rightarrow> int \<Rightarrow> int" where
  \<comment> \<open>\<open>new Date(year, month, date).getTime()\<close>: local midnight of that day\<close>
  "Date_ymd e year month date =
     (let yr = (if 0 \<le> year \<and> year \<le> 99 then 1900 + year else year)
      in UTC e (MakeDate (MakeDay yr month date) 0))"

definition local_date :: "env \<Rightarrow> int \<Rightarrow> string" where
  \<comment> \<open>the local calendar date of a time value, as an ISO date string\<close>
  "local_date e t = iso_date (LocalTime e t)"

section \<open>The visitor table: \<open>src/admin/Visitors.jsx\<close>\<close>

record visitor =
  vid :: nat
  name :: "string option"
  full_name :: "string option"
  email :: "string option"
  phone :: "string option"
  phone_number :: "string option"
  purpose :: "string option"
  checkin_time :: timestamp
  entry_time :: timestamp
  created_at :: timestamp

datatype sort_order = asc | desc

text \<open>The state of the component: what the \<open>useState\<close> hooks hold.\<close>

record viewer_state =
  visitors :: "visitor list"
  filteredVisitors :: "visitor list"
  searchTerm :: string
  purposeFilter :: string
  dateRange_start :: string
  dateRange_end :: string
  currentPage :: int
  itemsPerPage :: int
  sortOrder :: sort_order

definition name_of :: "visitor \<Rightarrow> string" where
  \<comment> \<open>\<open>(v.name || v.full_name || '')\<close>\<close>
  "name_of v = or_default (or_str (name v) (full_name v)) []"

definition phone_of :: "visitor \<Rightarrow> string" where
  \<comment> \<open>\<open>(v.phone || v.phone_number || '')\<close>\<close>
  "phone_of v = or_default (or_str (phone v) (phone_number v)) []"

definition time_of :: "visitor \<Rightarrow> int option" where
  \<comment> \<open>\<open>new Date(v.checkin_time || v.entry_time)\<close>\<close>
  "time_of v = new_Date (or_ts (checkin_time v) (entry_time v))"

definition search_pred :: "string \<Rightarrow> visitor \<Rightarrow> js_error + bool" where
  \<comment> \<open>the callback of the search filter; \<open>search\<close> is the lowercased search term.
      \<open>||\<close> evaluates its right operand only when the left one is false, and
      \<open>v.email.toLowerCase()\<close> throws when \<open>v.email\<close> is missing\<close>
  "search_pred search v =
     (if str_includes (toLowerCase (name_of v)) search then Inr True
      else (case email v of
              None \<Rightarrow> Inl TypeError
            | Some e \<Rightarrow>
                Inr (str_includes (toLowerCase e) search \<or> str_includes (phone_of v) search)))"

definition search_filter :: "string \<Rightarrow> visitor list \<Rightarrow> js_error + visitor list" where
  "search_filter term xs =
     (if term \<noteq> [] then filter_e (search_pred (toLowerCase term)) xs else Inr xs)"

definition purpose_filter :: "string \<Rightarrow> visitor list \<Rightarrow> visitor list" where
  "purpose_filter p xs =
     (if p \<noteq> [] \<and> p \<noteq> ''All'' then filter (\<lambda>v. purpose v = Some p) xs else xs)"

definition visit_date :: "visitor \<Rightarrow> js_error + string" where
  \<comment> \<open>\<open>new Date(v.checkin_time || v.entry_time).toISOString().split('T')[0]\<close>\<close>
  "visit_date v = toISOString_date (time_of v)"

definition start_pred :: "string \<Rightarrow> visitor \<Rightarrow> js_error + bool" where
  "start_pred start v =
     (case visit_date v of Inl e \<Rightarrow> Inl e | Inr visitDate \<Rightarrow> Inr (str_ge visitDate start))"

definition end_pred :: "string \<Rightarrow> visitor \<Rightarrow> js_error + bool" where
  "end_pred end v =
     (case visit_date v of Inl e \<Rightarrow> Inl e | Inr visitDate \<Rightarrow> Inr (str_le visitDate end))"

definition date_filter :: "string \<Rightarrow> string \<Rightarrow> visitor list \<Rightarrow> js_error + visitor list" where
  "date_filter start end xs =
     (case (if start \<noteq> [] then filter_e (start_pred start) xs else Inr xs) of
        Inl e \<Rightarrow> Inl e
      | Inr ys \<Rightarrow> (if end \<noteq> [] then filter_e (end_pred end) ys else Inr ys))"

definition date_minus :: "int option \<Rightarrow> int option \<Rightarrow> int option" where
  \<comment> \<open>the difference of two dates: of their time values, \<open>NaN\<close> when one is invalid\<close>
  "date_minus a b = (case (a, b) of (Some x, Some y) \<Rightarrow> Some (x - y) | _ \<Rightarrow> None)"

definition comparefn :: "sort_order \<Rightarrow> visitor \<Rightarrow> visitor \<Rightarrow> int option" where
  "comparefn ord a b =
     (let dateA = time_of a; dateB = time_of b
      in if ord = desc then date_minus dateB dateA else date_minus dateA dateB)"

definition SortCompare :: "('a \<Rightarrow> 'a \<Rightarrow> int option) \<Rightarrow> 'a \<Rightarrow> 'a \<Rightarrow> int" where
  \<comment> \<open>the comparison \<open>Array.prototype.sort\<close> makes: a \<open>NaN\<close> from the callback counts as 0\<close>
  "SortCompare f a b = (case f a b of None \<Rightarrow> 0 | Some v \<Rightarrow> v)"

fun insert_sorted :: "('a \<Rightarrow> 'a \<Rightarrow> int) \<Rightarrow> 'a \<Rightarrow> 'a list \<Rightarrow> 'a list" where
  "insert_sorted c x [] = [x]"
| "insert_sorted c x (y # ys) =
     (if c x y \<le> 0 then x # y # ys else y # insert_sorted c x ys)"

definition array_sort :: "('a \<Rightarrow> 'a \<Rightarrow> int option) \<Rightarrow> 'a list \<Rightarrow> 'a list" where
  \<comment> \<open>\<open>Array.prototype.sort\<close> as a stable insertion sort: each element goes before the
      first later element that it does not compare greater than\<close>
  "array_sort f xs = foldr (insert_sorted (SortCompare f)) xs []"

definition applyFilters :: "viewer_state \<Rightarrow> js_error + viewer_state" where
  "applyFilters s =
     (case search_filter (searchTerm s) (visitors s) of
        Inl e \<Rightarrow> Inl e
      | Inr f1 \<Rightarrow>
          (case date_filter (dateRange_start s) (dateRange_end s)
                  (purpose_filter (purposeFilter s) f1) of
             Inl e \<Rightarrow> Inl e
           | Inr f2 \<Rightarrow>
               Inr (s\<lparr>filteredVisitors := array_sort (comparefn (sortOrder s)) f2,
                       currentPage := 1\<rparr>)))"

definition slice :: "'a list \<Rightarrow> int \<Rightarrow> int \<Rightarrow> 'a list" where
  \<comment> \<open>\<open>Array.prototype.slice(start, end)\<close>: a negative index counts from the end\<close>
  "slice xs start end =
     (let len = int (length xs);
          k = (if start < 0 then max (len + start) 0 else min start len);
          final = (if end < 0 then max (len + end) 0 else min end len)
      in take (nat (final - k)) (drop (nat k) xs))"

definition indexOfLastItem :: "viewer_state \<Rightarrow> int" where
  "indexOfLastItem s = currentPage s * itemsPerPage s"

definition indexOfFirstItem :: "viewer_state \<Rightarrow> int" where
  "indexOfFirstItem s = indexOfLastItem s - itemsPerPage s"

definition currentItems :: "viewer_state \<Rightarrow> visitor list" where
  "currentItems s = slice (filteredVisitors s) (indexOfFirstItem s) (indexOfLastItem s)"

definition totalPages :: "viewer_state \<Rightarrow> int" where
  \<comment> \<open>\<open>Math.ceil(filteredVisitors.length / itemsPerPage)\<close>, for a positive page size\<close>
  "totalPages s = \<lceil>real (length (filteredVisitors s)) / real_of_int (itemsPerPage s)\<rceil>"

definition paginate :: "int \<Rightarrow> viewer_state \<Rightarrow> viewer_state" where
  "paginate pageNumber s = s\<lparr>currentPage := pageNumber\<rparr>"

definition toggle_sort :: "viewer_state \<Rightarrow> viewer_state" where
  \<comment> \<open>the sort button: \<open>setSortOrder(sortOrder === 'desc' ? 'asc' : 'desc')\<close>\<close>
  "toggle_sort s = s\<lparr>sortOrder := (if sortOrder s = desc then asc else desc)\<rparr>"

section \<open>The API client and the token store: \<open>services/api.js\<close>, \<open>services/auth.js\<close>\<close>

text \<open>
  What the network does with a request is a parameter of each operation: the promise of
  the HTTP call is fulfilled with the response data, or rejected with an error, which
  carries the response when the server answered. The browser holds the persistent
  key-value store, the current path, and (to observe the calls) the requests sent.
\<close>

record error_response =
  status :: nat
  data_message :: "string option"
  data_detail :: "string option"

record axios_error =
  code :: "string option"
  message :: string
  response :: "error_response option"

datatype 'd settled = Fulfilled 'd | Rejected axios_error

datatype 'd api_result = Success 'd | Failure string

text \<open>The fields of the registration form, which \<open>submitVisitorForm\<close> sends.\<close>

record form_data =
  f_name :: string
  f_email :: string
  f_phone :: string
  f_host :: string
  f_purpose :: string
  f_message :: string

text \<open>
  The requests: \<open>POST /api/entries/\<close> with the visitor's data, \<open>POST /api/login/\<close> with
  email and password, \<open>GET /api/entries/\<close>, and \<open>GET\<close> and \<open>DELETE\<close> of
  \<open>/api/entries/{id}/\<close>.
\<close>

datatype request =
    PostEntries form_data
  | PostLogin string string
  | GetEntries
  | GetEntry nat
  | DeleteEntry nat

record browser =
  localStorage :: "string \<rightharpoonup> string"
  pathname :: string
  requests :: "request list"

definition on_rejected :: "axios_error \<Rightarrow> browser \<Rightarrow> browser" where
  \<comment> \<open>the error branch of the response interceptor\<close>
  "on_rejected error b =
     (if map_option status (response error) = Some 401
      then (let b1 = b\<lparr>localStorage :=
                        (localStorage b)(''authToken'' := None, ''adminUser'' := None)\<rparr>
            in if prefix ''/admin'' (pathname b1) \<and> pathname b1 \<noteq> ''/admin/login''
               then b1\<lparr>pathname := ''/admin/login''\<rparr> else b1)
      else b)"

definition apiClient :: "request \<Rightarrow> 'd settled \<Rightarrow> browser \<Rightarrow> 'd settled \<times> browser" where
  \<comment> \<open>one HTTP call through the client: the interceptor runs, then the rejection goes on\<close>
  "apiClient req outcome b =
     (let b1 = b\<lparr>requests := requests b @ [req]\<rparr>
      in case outcome of
           Fulfilled d \<Rightarrow> (Fulfilled d, b1)
         | Rejected error \<Rightarrow> (Rejected error, on_rejected error b1))"

definition payload_message :: "axios_error \<Rightarrow> string option" where
  \<comment> \<open>\<open>error.response?.data?.message\<close>\<close>
  "payload_message error = (case response error of None \<Rightarrow> None | Some r \<Rightarrow> data_message r)"

definition payload_detail :: "axios_error \<Rightarrow> string option" where
  \<comment> \<open>\<open>error.response?.data?.detail\<close>\<close>
  "payload_detail error = (case response error of None \<Rightarrow> None | Some r \<Rightarrow> data_detail r)"

definition try_catch ::
  "'d settled \<times> browser \<Rightarrow> (axios_error \<Rightarrow> string) \<Rightarrow> 'd api_result settled \<times> browser" where
  \<comment> \<open>the body shared by the operations: \<open>try { ... return {success: true, data} }
      catch (error) { return {success: false, error: ...} }\<close>\<close>
  "try_catch call handler =
     (case call of
        (Fulfilled d, b) \<Rightarrow> (Fulfilled (Success d), b)
      | (Rejected error, b) \<Rightarrow> (Fulfilled (Failure (handler error)), b))"

definition submitVisitorForm ::
  "form_data \<Rightarrow> 'd settled \<Rightarrow> browser \<Rightarrow> 'd api_result settled \<times> browser" where
  "submitVisitorForm visitorData outcome b =
     try_catch (apiClient (PostEntries visitorData) outcome b)
       (\<lambda>error. or_default (payload_message error)
                  ''Failed to submit visitor form. Please try again.'')"

definition login_error_message :: "axios_error \<Rightarrow> string" where
  "login_error_message error =
     (if code error = Some ''ECONNABORTED''
      then ''Request timed out. Please check your network connection.''
      else if message error = ''Network Error''
      then ''Network error. Please ensure the server is running.''
      else or_default (payload_detail error)
             (or_default (payload_message error) ''Invalid credentials. Please try again.''))"

definition adminLogin ::
  "string \<Rightarrow> string \<Rightarrow> 'd settled \<Rightarrow> browser \<Rightarrow> 'd api_result settled \<times> browser" where
  \<comment> \<open>\<open>adminLogin(email, password)\<close>\<close>
  "adminLogin mail password outcome b =
     try_catch (apiClient (PostLogin mail password) outcome b) login_error_message"

definition getVisitors :: "'d settled \<Rightarrow> browser \<Rightarrow> 'd api_result settled \<times> browser" where
  "getVisitors outcome b =
     try_catch (apiClient GetEntries outcome b)
       (\<lambda>error. or_default (payload_message error)
                  ''Failed to fetch visitors. Please try again.'')"

definition getVisitorById ::
  "nat \<Rightarrow> 'd settled \<Rightarrow> browser \<Rightarrow> 'd api_result settled \<times> browser" where
  "getVisitorById i outcome b =
     try_catch (apiClient (GetEntry i) outcome b)
       (\<lambda>error. or_default (payload_message error) ''Failed to fetch visitor details.'')"

definition deleteVisitor ::
  "nat \<Rightarrow> 'd settled \<Rightarrow> browser \<Rightarrow> 'd api_result settled \<times> browser" where
  "deleteVisitor i outcome b =
     try_catch (apiClient (DeleteEntry i) outcome b)
       (\<lambda>error. or_default (payload_message error) ''Failed to delete visitor.'')"

definition getDashboardStats :: "'d settled \<Rightarrow> browser \<Rightarrow> 'd api_result settled \<times> browser" where
  "getDashboardStats outcome b =
     try_catch (apiClient GetEntries outcome b)
       (\<lambda>error. or_default (payload_message error)
                  ''Failed to fetch dashboard statistics.'')"

definition setAuthToken :: "string option \<Rightarrow> browser \<Rightarrow> browser" where
  "setAuthToken token b =
     (case token of
        Some t \<Rightarrow> if t \<noteq> [] then b\<lparr>localStorage := (localStorage b)(''authToken'' \<mapsto> t)\<rparr>
                  else b
      | None \<Rightarrow> b)"

definition getAuthToken :: "browser \<Rightarrow> string option" where
  "getAuthToken b = localStorage b ''authToken''"

definition removeAuthToken :: "browser \<Rightarrow> browser" where
  "removeAuthToken b = b\<lparr>localStorage := (localStorage b)(''authToken'' := None)\<rparr>"

definition setAdminUser :: "string option \<Rightarrow> browser \<Rightarrow> browser" where
  \<comment> \<open>the argument is the JSON text of the user object, when there is one\<close>
  "setAdminUser user b =
     (case user of
        Some u \<Rightarrow> b\<lparr>localStorage := (localStorage b)(''adminUser'' \<mapsto> u)\<rparr>
      | None \<Rightarrow> b)"

definition removeAdminUser :: "browser \<Rightarrow> browser" where
  "removeAdminUser b = b\<lparr>localStorage := (localStorage b)(''adminUser'' := None)\<rparr>"

definition isAuthenticated :: "browser \<Rightarrow> bool" where
  \<comment> \<open>\<open>!!getAuthToken()\<close>: a stored empty string is falsy\<close>
  "isAuthenticated b = (case getAuthToken b of None \<Rightarrow> False | Some t \<Rightarrow> t \<noteq> [])"

definition logout :: "browser \<Rightarrow> browser" where
  "logout b = removeAdminUser (removeAuthToken b)"

definition login :: "string option \<Rightarrow> string option \<Rightarrow> browser \<Rightarrow> browser" where
  "login token user b = setAdminUser user (setAuthToken token b)"

datatype rendered = Navigate string | Children

definition ProtectedRoute :: "browser \<Rightarrow> rendered" where
  "ProtectedRoute b = (if \<not> isAuthenticated b then Navigate ''/admin/login'' else Children)"

section \<open>The dashboard: \<open>src/admin/Dashboard.jsx\<close>\<close>

record stats =
  total_visitors :: nat
  today_visitors :: nat
  this_week_visitors :: nat
  this_month_visitors :: nat


definition checkin_of :: "env \<Rightarrow> visitor \<Rightarrow> int option" where
  \<comment> \<open>\<open>new Date(visitor.checkin_time || visitor.entry_time || visitor.created_at
      || Date.now()).getTime()\<close>\<close>
  "checkin_of e visitor =
     (let t = or_ts (or_ts (checkin_time visitor) (entry_time visitor)) (created_at visitor)
      in if truthy t then new_Date t else Some (now_ms e))"

definition num_ge :: "int option \<Rightarrow> int \<Rightarrow> bool" where
  \<comment> \<open>\<open>a >= b\<close> on numbers: false when \<open>a\<close> is \<open>NaN\<close>\<close>
  "num_ge a b = (case a of None \<Rightarrow> False | Some x \<Rightarrow> b \<le> x)"

definition today_start :: "env \<Rightarrow> int" where
  \<comment> \<open>\<open>new Date(now.getFullYear(), now.getMonth(), now.getDate()).getTime()\<close>\<close>
  "today_start e =
     (let now = now_ms e in Date_ymd e (getFullYear e now) (getMonth e now) (getDate e now))"

definition week_start :: "env \<Rightarrow> int" where
  \<comment> \<open>\<open>new Date(now.setDate(now.getDate() - now.getDay())).getTime()\<close>; the call
      changes \<open>now\<close> to this moment as well\<close>
  "week_start e = (let now = now_ms e in setDate e now (getDate e now - getDay e now))"

definition month_start :: "env \<Rightarrow> int" where
  \<comment> \<open>\<open>new Date(now.getFullYear(), now.getMonth(), 1).getTime()\<close>, evaluated after
      \<open>setDate\<close> has changed \<open>now\<close>\<close>
  "month_start e = (let now = week_start e in Date_ymd e (getFullYear e now) (getMonth e now) 1)"

definition count_visitor :: "env \<Rightarrow> stats \<Rightarrow> visitor \<Rightarrow> stats" where
  \<comment> \<open>the callback of \<open>visitors.reduce\<close>\<close>
  "count_visitor e acc visitor =
     (let checkinTime = checkin_of e visitor;
          acc1 = acc\<lparr>total_visitors := total_visitors acc + 1\<rparr>;
          acc2 = (if num_ge checkinTime (today_start e)
                  then acc1\<lparr>today_visitors := today_visitors acc1 + 1\<rparr> else acc1);
          acc3 = (if num_ge checkinTime (week_start e)
                  then acc2\<lparr>this_week_visitors := this_week_visitors acc2 + 1\<rparr> else acc2)
      in if num_ge checkinTime (month_start e)
         then acc3\<lparr>this_month_visitors := this_month_visitors acc3 + 1\<rparr> else acc3)"

definition calculate_stats :: "env \<Rightarrow> visitor list \<Rightarrow> nat option \<Rightarrow> stats" where
  \<comment> \<open>the local calculation, and the \<open>count\<close> of a paginated answer put in place of the
      total when it is there and not zero\<close>
  "calculate_stats e vs cnt =
     (let st = foldl (count_visitor e)
                 \<lparr>total_visitors = 0, today_visitors = 0, this_week_visitors = 0,
                  this_month_visitors = 0\<rparr> vs
      in case cnt of
           Some c \<Rightarrow> if c \<noteq> 0 then st\<lparr>total_visitors := c\<rparr> else st
         | None \<Rightarrow> st)"


section \<open>The registration form: \<open>components/VisitorForm.jsx\<close>\<close>

text \<open>The object \<open>newErrors\<close>: a field is \<open>None\<close> when the object has no such key.\<close>

record form_errors =
  e_name :: "string option"
  e_email :: "string option"
  e_phone :: "string option"
  e_purpose :: "string option"

record form_state =
  formData :: form_data
  errors :: form_errors
  loading :: bool
  submitStatus :: "string option"

definition email_char :: "char \<Rightarrow> bool" where
  \<comment> \<open>the class \<open>[^\s@]\<close>\<close>
  "email_char c = (\<not> is_space c \<and> c \<noteq> CHR ''@'')"

definition emailRegex_test :: "string \<Rightarrow> bool" where
  \<comment> \<open>\<open>/^[^\s@]+@[^\s@]+\.[^\s@]+$/.test(s)\<close>: a non-empty local part, one \<open>@\<close>, and
      after it characters of the class with a dot that is neither first nor last\<close>
  "emailRegex_test s =
     (let local = takeWhile email_char s; rest = dropWhile email_char s
      in local \<noteq> [] \<and>
         (case rest of
            [] \<Rightarrow> False
          | c # host \<Rightarrow> c = CHR ''@'' \<and> list_all email_char host \<and>
                        list_ex (\<lambda>i. host ! i = CHR ''.'') [1..<length host - 1]))"

definition phoneRegex_test :: "string \<Rightarrow> bool" where
  \<comment> \<open>\<open>/^[0-9]{10,15}$/.test(s)\<close>\<close>
  "phoneRegex_test s = (10 \<le> length s \<and> length s \<le> 15 \<and> list_all is_digit s)"

definition strip_separators :: "string \<Rightarrow> string" where
  \<comment> \<open>\<open>s.replace(/[\s-]/g, '')\<close>\<close>
  "strip_separators s = filter (\<lambda>c. \<not> (is_space c \<or> c = CHR ''-'')) s"

definition validateForm :: "form_data \<Rightarrow> form_errors" where
  \<comment> \<open>the object \<open>newErrors\<close> that \<open>validateForm\<close> builds and stores\<close>
  "validateForm fd =
     \<lparr>e_name =
        (if trim (f_name fd) = [] then Some ''Full name is required''
         else if length (trim (f_name fd)) < 2 then Some ''Name must be at least 2 characters''
         else None),
      e_email =
        (if trim (f_email fd) = [] then Some ''Email is required''
         else if \<not> emailRegex_test (f_email fd) then Some ''Invalid email format''
         else None),
      e_phone =
        (if trim (f_phone fd) = [] then Some ''Phone number is required''
         else if \<not> phoneRegex_test (strip_separators (f_phone fd))
         then Some ''Invalid phone number (10-15 digits)''
         else None),
      e_purpose =
        (if f_purpose fd = [] then Some ''Purpose of visit is required'' else None)\<rparr>"

definition no_errors :: "form_errors \<Rightarrow> bool" where
  \<comment> \<open>\<open>Object.keys(newErrors).length === 0\<close>, the value \<open>validateForm\<close> returns\<close>
  "no_errors es =
     (e_name es = None \<and> e_email es = None \<and> e_phone es = None \<and> e_purpose es = None)"

definition empty_form :: form_data where
  "empty_form = \<lparr>f_name = [], f_email = [], f_phone = [], f_host = [], f_purpose = [],
                 f_message = []\<rparr>"

definition handleSubmit ::
  "'d settled \<Rightarrow> form_state \<times> browser \<Rightarrow> form_state \<times> browser" where
  \<comment> \<open>\<open>outcome\<close> is what the network does with the request, if one is sent\<close>
  "handleSubmit outcome sb =
     (let st1 = (fst sb)\<lparr>submitStatus := None\<rparr>;
          st2 = st1\<lparr>errors := validateForm (formData st1)\<rparr>
      in if \<not> no_errors (errors st2) then (st2, snd sb)
         else (case submitVisitorForm (formData st2) outcome (snd sb) of
                 (Fulfilled (Success d), b) \<Rightarrow>
                   (st2\<lparr>loading := False, formData := empty_form,
                        errors := \<lparr>e_name = None, e_email = None, e_phone = None,
                                   e_purpose = None\<rparr>\<rparr>,
                    b\<lparr>pathname := ''/success''\<rparr>)
               | (Fulfilled (Failure err), b) \<Rightarrow>
                   (st2\<lparr>loading := False, submitStatus := Some ''error''\<rparr>, b)
               | (Rejected error, b) \<Rightarrow> (st2\<lparr>loading := True\<rparr>, b)))"

section \<open>Sample data\<close>

definition alice :: visitor where
  "alice = \<lparr>vid = 1, name = Some ''Alice'', full_name = None,
            email = Some ''alice@example.com'', phone = Some ''555-0100'',
            phone_number = None, purpose = Some ''Interview'',
            checkin_time = At 1704103200000, entry_time = Absent, created_at = Absent\<rparr>"

definition bob :: visitor where
  "bob = \<lparr>vid = 2, name = Some ''Bob'', full_name = None,
          email = Some ''b.smith@example.com'', phone = Some ''555-0101'',
          phone_number = None, purpose = Some ''Delivery'',
          checkin_time = At 1705312800000, entry_time = Absent, created_at = Absent\<rparr>"

definition carol :: visitor where
  \<comment> \<open>a record of the backend's other shape, with letters in the phone number\<close>
  "carol = \<lparr>vid = 3, name = None, full_name = Some ''Carol'',
            email = Some ''carol@example.com'', phone = None,
            phone_number = Some ''1-800-FLOWERS'', purpose = Some ''Other'',
            checkin_time = Absent, entry_time = At 1705264200000, created_at = Absent\<rparr>"

definition dave :: visitor where
  \<comment> \<open>a record with no timestamp at all\<close>
  "dave = \<lparr>vid = 4, name = Some ''Dave'', full_name = None,
           email = Some ''dave@example.com'', phone = Some ''555-0104'',
           phone_number = None, purpose = Some ''Other'',
           checkin_time = Absent, entry_time = Absent, created_at = Absent\<rparr>"

definition erin :: visitor where
  \<comment> \<open>a record with an email but neither a name nor a phone number\<close>
  "erin = \<lparr>vid = 5, name = None, full_name = None,
           email = Some ''erin@example.com'', phone = None,
           phone_number = None, purpose = Some ''Maintenance'',
           checkin_time = At 1705312800000, entry_time = Absent, created_at = Absent\<rparr>"

definition frank :: visitor where
  \<comment> \<open>a record with no email\<close>
  "frank = \<lparr>vid = 6, name = Some ''Frank'', full_name = None,
            email = None, phone = Some ''555-0106'',
            phone_number = None, purpose = Some ''Personal Visit'',
            checkin_time = At 1705312800000, entry_time = Absent, created_at = Absent\<rparr>"

definition initial_state :: viewer_state where
  \<comment> \<open>the initial values of the \<open>useState\<close> hooks\<close>
  "initial_state = \<lparr>visitors = [], filteredVisitors = [], searchTerm = [],
                    purposeFilter = [], dateRange_start = [], dateRange_end = [],
                    currentPage = 1, itemsPerPage = 10, sortOrder = desc\<rparr>"

definition five_by_two :: viewer_state where
  \<comment> \<open>five records shown two to a page\<close>
  "five_by_two = initial_state\<lparr>filteredVisitors := [bob, erin, carol, alice, dave],
                               itemsPerPage := 2\<rparr>"


definition unauthorized :: axios_error where
  "unauthorized = \<lparr>code = Some ''ERR_BAD_REQUEST'',
                    message = ''Request failed with status code 401'',
                    response = Some \<lparr>status = 401, data_message = None,
                                     data_detail = Some ''Token expired''\<rparr>\<rparr>"

definition signed_in :: browser where
  "signed_in = \<lparr>localStorage = [''authToken'' \<mapsto> ''abc'', ''adminUser'' \<mapsto> ''{}''],
                 pathname = ''/admin/visitors'', requests = []\<rparr>"

definition server_error :: axios_error where
  "server_error = \<lparr>code = Some ''ERR_BAD_RESPONSE'',
                    message = ''Request failed with status code 500'',
                    response = Some \<lparr>status = 500,
                                     data_message = Some ''Database unavailable'',
                                     data_detail = None\<rparr>\<rparr>"

definition timed_out :: axios_error where
  "timed_out = \<lparr>code = Some ''ECONNABORTED'', message = ''timeout of 30000ms exceeded'',
                 response = None\<rparr>"

definition fresh_form :: form_state where
  "fresh_form = \<lparr>formData = empty_form,
                  errors = \<lparr>e_name = None, e_email = None, e_phone = None, e_purpose = None\<rparr>,
                  loading = False, submitStatus = None\<rparr>"

definition ann :: form_data where
  "ann = \<lparr>f_name = ''Ann Lee'', f_email = ''ann@example.com'', f_phone = ''098 7654-3210'',
          f_host = ''Bob'', f_purpose = ''Interview'', f_message = []\<rparr>"

definition bad_phone_form :: form_state where
  \<comment> \<open>the form filled in well but for the phone number\<close>
  "bad_phone_form = fresh_form\<lparr>formData := ann\<lparr>f_phone := ''12a''\<rparr>\<rparr>"

definition visiting :: browser where
  "visiting = \<lparr>localStorage = Map.empty, pathname = ''/'', requests = []\<rparr>"

definition ist :: env where
  \<comment> \<open>Wednesday 1 May 2024, 12:00 in a browser at UTC+05:30\<close>
  "ist = \<lparr>now_ms = 1714545000000, tza = 19800000\<rparr>"

definition checked_in_at :: "int \<Rightarrow> visitor" where
  "checked_in_at t = \<lparr>vid = 0, name = Some ''Visitor'', full_name = None,
                       email = Some ''visitor@example.com'', phone = Some ''5550100000'',
                       phone_number = None, purpose = Some ''Other'',
                       checkin_time = At t, entry_time = Absent, created_at = Absent\<rparr>"




section \<open>Notions used in the statements and proofs\<close>

definition viewer_output :: "viewer_state \<Rightarrow> js_error + visitor list" where
  \<comment> \<open>what a run of \<open>applyFilters\<close> leaves in \<open>filteredVisitors\<close>, or the error it throws\<close>
  "viewer_output s = map_sum id filteredVisitors (applyFilters s)"



definition long_term :: "visitor \<Rightarrow> string" where
  \<comment> \<open>a search term longer than the record's name\<close>
  "long_term v = replicate (Suc (length (name_of v))) CHR ''x''"


definition uniform_result :: "'d settled \<Rightarrow> 'd api_result settled \<times> browser \<Rightarrow> bool" where
  \<comment> \<open>the promise of an operation is fulfilled, with the data of the call on success and
      with a non-empty message when the call was rejected\<close>
  "uniform_result outcome res =
     (case fst res of
        Fulfilled (Success d) \<Rightarrow> outcome = Fulfilled d
      | Fulfilled (Failure m) \<Rightarrow> m \<noteq> [] \<and> (\<exists>error. outcome = Rejected error)
      | Rejected error \<Rightarrow> False)"

definition api_call :: "request \<Rightarrow> 'd settled \<Rightarrow> browser \<Rightarrow> 'd api_result settled \<times> browser" where
  \<comment> \<open>the operation of the client that sends the request \<open>req\<close>\<close>
  "api_call req outcome b =
     (case req of
        PostEntries visitorData \<Rightarrow> submitVisitorForm visitorData outcome b
      | PostLogin mail password \<Rightarrow> adminLogin mail password outcome b
      | GetEntries \<Rightarrow> getVisitors outcome b
      | GetEntry i \<Rightarrow> getVisitorById i outcome b
      | DeleteEntry i \<Rightarrow> deleteVisitor i outcome b)"

definition api_calls :: "(request \<times> 'd settled) list \<Rightarrow> browser \<Rightarrow> browser" where
  \<comment> \<open>the browser after a sequence of calls, each with what the network did with it\<close>
  "api_calls cs b = foldl (\<lambda>b c. snd (api_call (fst c) (snd c) b)) b cs"





section \<open>Strings and filters\<close>

lemma str_includes_sublist: "str_includes hay needle \<longleftrightarrow> sublist needle hay"
  by (induction hay) (auto simp: sublist_Cons_right)

lemma filter_e_total:
  "(\<And>x. x \<in> set xs \<Longrightarrow> p x = Inr (q x)) \<Longrightarrow> filter_e p xs = Inr (filter q xs)"
  by (induction xs) auto

lemma filter_e_raises:
  "x \<in> set xs \<Longrightarrow> p x = Inl e \<Longrightarrow> \<exists>e'. filter_e p xs = Inl e'"
  by (induction xs) (auto split: sum.splits)

lemma filter_e_Inl:
  "filter_e p xs = Inl e \<Longrightarrow> \<exists>x\<in>set xs. p x = Inl e"
  by (induction xs) (auto split: sum.splits if_splits)

lemma search_pred_error: "search_pred s v = Inl e \<Longrightarrow> e = TypeError \<and> email v = None"
  by (auto simp: search_pred_def split: if_splits option.splits)

lemma length_toLowerCase: "length (toLowerCase s) = length s"
  by (simp add: toLowerCase_def)

lemma long_needle_not_included: "length hay < length needle \<Longrightarrow> \<not> str_includes hay needle"
  by (auto simp: str_includes_sublist dest: sublist_length_le)

lemma search_pred_long_term:
  assumes "email v = None"
  shows "search_pred (toLowerCase (long_term v)) v = Inl TypeError"
proof -
  have "length (toLowerCase (name_of v)) < length (toLowerCase (long_term v))"
    by (simp add: length_toLowerCase long_term_def)
  then have "\<not> str_includes (toLowerCase (name_of v)) (toLowerCase (long_term v))"
    by (rule long_needle_not_included)
  with assms show ?thesis by (simp add: search_pred_def)
qed

lemma search_filter_total:
  assumes em: "\<forall>v\<in>set xs. email v \<noteq> None"
  shows "\<exists>ys. search_filter s xs = Inr ys"
proof (cases "search_filter s xs")
  case (Inl err)
  then have "filter_e (search_pred (toLowerCase s)) xs = Inl err"
    by (auto simp: search_filter_def split: if_splits)
  from filter_e_Inl [OF this]
  obtain x where x: "x \<in> set xs" "search_pred (toLowerCase s) x = Inl err" by auto
  from search_pred_error [OF x(2)] have "email x = None" by simp
  with em x(1) show ?thesis by auto
next
  case (Inr ys) then show ?thesis by simp
qed

lemma search_filter_raises:
  assumes "w \<in> set xs" "email w = None"
  shows "search_filter (long_term w) xs = Inl TypeError"
proof -
  let ?t = "long_term w"
  have ne: "?t \<noteq> []" by (simp add: long_term_def)
  from assms(2) have "search_pred (toLowerCase ?t) w = Inl TypeError"
    by (rule search_pred_long_term)
  from filter_e_raises [of w xs "search_pred (toLowerCase ?t)" TypeError, OF assms(1) this]
  obtain e' where e': "filter_e (search_pred (toLowerCase ?t)) xs = Inl e'" by auto
  from filter_e_Inl [OF this]
  obtain x where "x \<in> set xs" "search_pred (toLowerCase ?t) x = Inl e'" by auto
  from search_pred_error [OF this(2)] have "e' = TypeError" by simp
  with e' ne show ?thesis by (simp add: search_filter_def)
qed

lemma search_filter_single:
  assumes "email v = Some e"
  shows "search_filter s [v] =
          Inr (if sublist (toLowerCase s) (toLowerCase (name_of v))
                  \<or> sublist (toLowerCase s) (toLowerCase e)
                  \<or> sublist (toLowerCase s) (phone_of v)
               then [v] else [])"
proof (cases "s = []")
  case True then show ?thesis by (simp add: search_filter_def toLowerCase_def)
next
  case False
  with assms show ?thesis
    by (simp add: search_filter_def search_pred_def str_includes_sublist)
qed

lemma filter_e_Inr:
  "filter_e p xs = Inr ys \<Longrightarrow> ys = filter (\<lambda>x. p x = Inr True) xs"
  by (induction xs arbitrary: ys) (auto split: sum.splits if_splits)



lemma filter_e_subset: "filter_e p xs = Inr ys \<Longrightarrow> set ys \<subseteq> set xs"
  by (drule filter_e_Inr) auto


lemma search_filter_subset: "search_filter t xs = Inr ys \<Longrightarrow> set ys \<subseteq> set xs"
  by (auto simp: search_filter_def split: if_splits dest: filter_e_subset)





section \<open>Sorting\<close>















section \<open>Pagination\<close>

lemma slice_take_drop:
  "0 \<le> a \<Longrightarrow> a \<le> b \<Longrightarrow> slice xs a b = take (nat (b - a)) (drop (nat a) xs)"
  by (auto simp: slice_def Let_def min_def)

lemma concat_pages:
  "concat (map (\<lambda>n. take k (drop (n * k) xs)) [0..<m]) = take (m * k) xs"
proof (induction m)
  case 0 then show ?case by simp
next
  case (Suc m)
  have "take (m * k) xs @ take k (drop (m * k) xs) = take (m * k + k) xs"
    by (simp add: take_add)
  with Suc show ?case by (simp add: add.commute)
qed

lemma ceil_bounds:
  assumes "0 < (k::int)"
  shows "int n \<le> \<lceil>real n / real_of_int k\<rceil> * k \<and> (\<lceil>real n / real_of_int k\<rceil> - 1) * k < int n"
proof -
  define c where "c = \<lceil>real n / real_of_int k\<rceil>"
  have kpos: "0 < real_of_int k" using assms by simp
  have "real n / real_of_int k \<le> real_of_int c" unfolding c_def by (rule le_of_int_ceiling)
  then have "real n \<le> real_of_int c * real_of_int k"
    using kpos by (simp add: pos_divide_le_eq)
  then have "real_of_int (int n) \<le> real_of_int (c * k)" by simp
  then have a: "int n \<le> c * k" by (simp only: of_int_le_iff)
  have "real_of_int c - 1 < real n / real_of_int k" unfolding c_def by linarith
  then have "(real_of_int c - 1) * real_of_int k < real n"
    using kpos by (simp add: pos_less_divide_eq)
  then have "real_of_int ((c - 1) * k) < real_of_int (int n)" by simp
  then have b: "(c - 1) * k < int n" by (simp only: of_int_less_iff)
  from a b show ?thesis unfolding c_def by simp
qed

lemma currentItems_take_drop:
  assumes "1 \<le> itemsPerPage s" "1 \<le> n"
  shows "currentItems (paginate n s) =
           take (nat (itemsPerPage s)) (drop (nat ((n - 1) * itemsPerPage s)) (filteredVisitors s))"
proof -
  let ?k = "itemsPerPage s"
  have c: "n * ?k - ?k = (n - 1) * ?k" by (simp add: algebra_simps)
  have "0 \<le> (n - 1) * ?k" using assms by simp
  then have a: "0 \<le> n * ?k - ?k" by (simp only: c)
  have b: "n * ?k - ?k \<le> n * ?k" using assms by simp
  have "currentItems (paginate n s) = slice (filteredVisitors s) (n * ?k - ?k) (n * ?k)"
    by (simp add: currentItems_def paginate_def indexOfFirstItem_def indexOfLastItem_def)
  also have "\<dots> = take (nat (n * ?k - (n * ?k - ?k))) (drop (nat (n * ?k - ?k)) (filteredVisitors s))"
    using a b by (rule slice_take_drop)
  also have "n * ?k - (n * ?k - ?k) = ?k" by simp
  finally show ?thesis by (simp only: c)
qed

lemma pages_concat:
  assumes "1 \<le> itemsPerPage s"
  shows "concat (map (\<lambda>n. currentItems (paginate (int n) s)) [1..<Suc (nat (totalPages s))])
           = filteredVisitors s"
proof -
  let ?k = "nat (itemsPerPage s)" and ?m = "nat (totalPages s)" and ?xs = "filteredVisitors s"
  have kpos: "0 < itemsPerPage s" using assms by simp
  have page: "currentItems (paginate (int (Suc n)) s) = take ?k (drop (n * ?k) ?xs)" for n
  proof -
    have "nat ((int (Suc n) - 1) * itemsPerPage s) = n * ?k"
      using kpos by (simp add: nat_mult_distrib)
    with currentItems_take_drop [OF assms, of "int (Suc n)"] show ?thesis by simp
  qed
  have "[Suc 0..<Suc ?m] = map Suc [0..<?m]" by (rule map_Suc_upt [symmetric])
  then have "map (\<lambda>n. currentItems (paginate (int n) s)) [1..<Suc ?m]
          = map (\<lambda>n. currentItems (paginate (int (Suc n)) s)) [0..<?m]"
    by (simp only: One_nat_def map_map o_def)
  also have "\<dots> = map (\<lambda>n. take ?k (drop (n * ?k) ?xs)) [0..<?m]"
    by (simp only: page)
  finally have "concat (map (\<lambda>n. currentItems (paginate (int n) s)) [1..<Suc ?m])
                  = take (?m * ?k) ?xs"
    by (simp only: concat_pages)
  moreover have "length ?xs \<le> ?m * ?k"
  proof -
    from ceil_bounds [OF kpos, of "length ?xs"]
    have le: "int (length ?xs) \<le> totalPages s * itemsPerPage s" by (simp add: totalPages_def)
    then have "0 \<le> totalPages s * itemsPerPage s" by linarith
    with kpos have "0 \<le> totalPages s" by (simp add: zero_le_mult_iff)
    with kpos have "int (?m * ?k) = totalPages s * itemsPerPage s" by simp
    with le show ?thesis by linarith
  qed
  ultimately show ?thesis by simp
qed

section \<open>Claims about the visitor table\<close>

text \<open>
  C1 (as amended). When every record carries an email, the search filter keeps exactly
  the records for which the lowercased search term is a substring of the lowercased name,
  or of the lowercased email, or of the phone number as stored (the phone number is not
  lowercased); the order of the kept records is that of the input. An empty search term
  keeps every record.
\<close>

theorem search_filter_retains:
  "((\<forall>v\<in>set xs. email v \<noteq> None) \<longrightarrow>
      search_filter s xs =
        Inr (filter (\<lambda>v. sublist (toLowerCase s) (toLowerCase (name_of v))
                       \<or> sublist (toLowerCase s) (toLowerCase (the (email v)))
                       \<or> sublist (toLowerCase s) (phone_of v)) xs))
   \<and> search_filter [] xs = Inr xs"
proof (intro conjI impI)
  assume em: "\<forall>v\<in>set xs. email v \<noteq> None"
  let ?q = "\<lambda>v. sublist (toLowerCase s) (toLowerCase (name_of v))
                       \<or> sublist (toLowerCase s) (toLowerCase (the (email v)))
                       \<or> sublist (toLowerCase s) (phone_of v)"
  show "search_filter s xs = Inr (filter ?q xs)"
  proof (cases "s = []")
    case True
    then show ?thesis by (simp add: search_filter_def toLowerCase_def)
  next
    case False
    have "filter_e (search_pred (toLowerCase s)) xs = Inr (filter ?q xs)"
    proof (rule filter_e_total)
      fix v assume "v \<in> set xs"
      with em obtain e where "email v = Some e" by auto
      then show "search_pred (toLowerCase s) v = Inr (?q v)"
        by (simp add: search_pred_def str_includes_sublist)
    qed
    with False show ?thesis by (simp add: search_filter_def)
  qed
next
  show "search_filter [] xs = Inr xs" by (simp add: search_filter_def)
qed

theorem search_filter_retains_witness:
  "email alice \<noteq> None \<and> email bob \<noteq> None
   \<and> search_filter ''bo'' [alice, bob] = Inr [bob]
   \<and> search_filter [] [alice, bob] = Inr [alice, bob]"
proof -
  have h: "\<forall>v\<in>set [alice, bob]. email v \<noteq> None"
    by (simp add: alice_def bob_def)
  have q: "filter (\<lambda>v. sublist (toLowerCase ''bo'') (toLowerCase (name_of v))
                       \<or> sublist (toLowerCase ''bo'') (toLowerCase (the (email v)))
                       \<or> sublist (toLowerCase ''bo'') (phone_of v)) [alice, bob] = [bob]"
    by code_simp
  from search_filter_retains [of "[alice, bob]" "''bo''"] h q
  show ?thesis by simp
qed

text \<open>
  C1 as stated treats the three fields alike, and fails either way it is read. Read
  literally, the lowercased term is looked for in the fields as stored: the search
  \<open>bo\<close> keeps Bob, although \<open>bo\<close> occurs in none of his stored fields. Read as a
  case-insensitive match on all three fields: the search \<open>flowers\<close> drops the record
  whose phone number is \<open>1-800-FLOWERS\<close>.
\<close>

theorem search_uniform_reading_counterexample:
  "(search_filter ''bo'' [bob] = Inr [bob]
      \<and> \<not> sublist (toLowerCase ''bo'') (name_of bob)
      \<and> \<not> sublist (toLowerCase ''bo'') (the (email bob))
      \<and> \<not> sublist (toLowerCase ''bo'') (phone_of bob))
   \<and> (search_filter ''flowers'' [carol] = Inr []
      \<and> sublist (toLowerCase ''flowers'') (toLowerCase (phone_of carol)))"
  by code_simp

text \<open>The scenario of the specification, run through the whole of \<open>applyFilters\<close>.\<close>

lemma applyFilters_scenario:
  "viewer_output (initial_state\<lparr>visitors := [alice, bob], searchTerm := ''bo''\<rparr>) = Inr [bob]
   \<and> viewer_output (initial_state\<lparr>visitors := [alice, bob], purposeFilter := ''Interview''\<rparr>)
       = Inr [alice]"
  by code_simp

text \<open>
  C10. The search filter returns a list whenever every record carries an email. A record
  with neither \<open>name\<close> nor \<open>full_name\<close> is searched as if its name were empty, and is
  still found through its email or phone number; likewise a record with neither
  \<open>phone\<close> nor \<open>phone_number\<close>. But for a list that holds a record with no email there
  is a non-empty search term on which the filter throws a \<open>TypeError\<close>.
\<close>

theorem search_filter_needs_email:
  "((\<forall>v\<in>set xs. email v \<noteq> None) \<longrightarrow> (\<exists>ys. search_filter s xs = Inr ys))
   \<and> (name v = None \<and> full_name v = None \<and> email v = Some e \<longrightarrow>
        search_filter s [v] =
          Inr (if sublist (toLowerCase s) (toLowerCase e) \<or> sublist (toLowerCase s) (phone_of v)
               then [v] else []))
   \<and> (phone u = None \<and> phone_number u = None \<and> email u = Some d \<longrightarrow>
        search_filter s [u] =
          Inr (if sublist (toLowerCase s) (toLowerCase (name_of u))
                  \<or> sublist (toLowerCase s) (toLowerCase d)
               then [u] else []))
   \<and> (w \<in> set zs \<and> email w = None \<longrightarrow>
        (\<exists>t. t \<noteq> [] \<and> search_filter t zs = Inl TypeError))"
proof (intro conjI impI)
  assume "\<forall>v\<in>set xs. email v \<noteq> None"
  then show "\<exists>ys. search_filter s xs = Inr ys" by (rule search_filter_total)
next
  assume a: "name v = None \<and> full_name v = None \<and> email v = Some e"
  then have n: "name_of v = []" by (simp add: name_of_def or_str_def or_default_def)
  have "sublist (toLowerCase s) (toLowerCase (name_of v)) \<longrightarrow> sublist (toLowerCase s) (toLowerCase e)"
    by (simp add: n toLowerCase_def)
  with search_filter_single [of v e s] a
  show "search_filter s [v] =
          Inr (if sublist (toLowerCase s) (toLowerCase e) \<or> sublist (toLowerCase s) (phone_of v)
               then [v] else [])"
    by auto
next
  assume a: "phone u = None \<and> phone_number u = None \<and> email u = Some d"
  then have n: "phone_of u = []" by (simp add: phone_of_def or_str_def or_default_def)
  have "sublist (toLowerCase s) (phone_of u) \<longrightarrow> sublist (toLowerCase s) (toLowerCase d)"
    by (simp add: n toLowerCase_def)
  with search_filter_single [of u d s] a
  show "search_filter s [u] =
          Inr (if sublist (toLowerCase s) (toLowerCase (name_of u))
                  \<or> sublist (toLowerCase s) (toLowerCase d)
               then [u] else [])"
    by auto
next
  assume a: "w \<in> set zs \<and> email w = None"
  then have "search_filter (long_term w) zs = Inl TypeError"
    by (simp add: search_filter_raises)
  moreover have "long_term w \<noteq> []" by (simp add: long_term_def)
  ultimately show "\<exists>t. t \<noteq> [] \<and> search_filter t zs = Inl TypeError" by blast
qed

theorem search_filter_needs_email_witness:
  "email alice \<noteq> None \<and> email bob \<noteq> None
   \<and> (\<exists>ys. search_filter ''bo'' [alice, bob] = Inr ys)
   \<and> name erin = None \<and> full_name erin = None \<and> phone erin = None \<and> phone_number erin = None
   \<and> email erin = Some ''erin@example.com''
   \<and> search_filter ''bo'' [erin] = Inr []
   \<and> frank \<in> set [alice, frank] \<and> email frank = None
   \<and> (\<exists>t. t \<noteq> [] \<and> search_filter t [alice, frank] = Inl TypeError)"
proof -
  have h1: "\<forall>v\<in>set [alice, bob]. email v \<noteq> None" by (simp add: alice_def bob_def)
  have h2: "name erin = None \<and> full_name erin = None \<and> email erin = Some ''erin@example.com''"
    by (simp add: erin_def)
  have h3: "phone erin = None \<and> phone_number erin = None \<and> email erin = Some ''erin@example.com''"
    by (simp add: erin_def)
  have h4: "frank \<in> set [alice, frank] \<and> email frank = None" by (simp add: frank_def)
  have e: "\<not> (sublist (toLowerCase ''bo'') (toLowerCase ''erin@example.com'')
              \<or> sublist (toLowerCase ''bo'') (phone_of erin))"
    by code_simp
  from search_filter_needs_email [of "[alice, bob]" "''bo''" erin "''erin@example.com''" erin
         "''erin@example.com''" frank "[alice, frank]"] h1 h2 h3 h4 e
  show ?thesis by simp
qed




text \<open>
  C4. For a page size of at least 1: page \<open>n\<close> (counted from 1) is the stretch of the
  filtered and sorted list from index \<open>(n - 1) * size\<close> up to \<open>n * size\<close>; the page count
  is the least number of pages of that size that hold the whole list, that is the ceiling
  of length / size; the pages 1 to the page count, one after the other, are the list;
  and no page is longer than the page size.
\<close>

theorem pagination_partition:
  assumes "1 \<le> itemsPerPage s"
  shows "(\<forall>n\<ge>1. currentItems (paginate n s) =
            take (nat (itemsPerPage s))
              (drop (nat ((n - 1) * itemsPerPage s)) (filteredVisitors s)))
    \<and> int (length (filteredVisitors s)) \<le> totalPages s * itemsPerPage s
    \<and> (totalPages s - 1) * itemsPerPage s < int (length (filteredVisitors s))
    \<and> concat (map (\<lambda>n. currentItems (paginate (int n) s)) [1..<Suc (nat (totalPages s))])
         = filteredVisitors s
    \<and> (\<forall>n\<ge>1. int (length (currentItems (paginate n s))) \<le> itemsPerPage s)"
proof -
  have kpos: "0 < itemsPerPage s" using assms by simp
  have 1: "\<forall>n\<ge>1. currentItems (paginate n s) =
            take (nat (itemsPerPage s))
              (drop (nat ((n - 1) * itemsPerPage s)) (filteredVisitors s))"
    using currentItems_take_drop [OF assms] by simp
  from ceil_bounds [OF kpos, of "length (filteredVisitors s)"]
  have 2: "int (length (filteredVisitors s)) \<le> totalPages s * itemsPerPage s"
    and 3: "(totalPages s - 1) * itemsPerPage s < int (length (filteredVisitors s))"
    by (simp_all add: totalPages_def)
  have 4: "concat (map (\<lambda>n. currentItems (paginate (int n) s)) [1..<Suc (nat (totalPages s))])
         = filteredVisitors s"
    using assms by (rule pages_concat)
  have 5: "\<forall>n\<ge>1. int (length (currentItems (paginate n s))) \<le> itemsPerPage s"
  proof (intro allI impI)
    fix n :: int assume "1 \<le> n"
    with 1 have "length (currentItems (paginate n s)) \<le> nat (itemsPerPage s)" by simp
    with kpos show "int (length (currentItems (paginate n s))) \<le> itemsPerPage s" by linarith
  qed
  from 1 2 3 4 5 show ?thesis by blast
qed

theorem pagination_partition_witness:
  "1 \<le> itemsPerPage five_by_two
   \<and> totalPages five_by_two = 3
   \<and> currentItems (paginate 1 five_by_two) = [bob, erin]
   \<and> currentItems (paginate 2 five_by_two) = [carol, alice]
   \<and> currentItems (paginate 3 five_by_two) = [dave]
   \<and> concat (map (\<lambda>n. currentItems (paginate (int n) five_by_two))
               [1..<Suc (nat (totalPages five_by_two))]) = filteredVisitors five_by_two
   \<and> totalPages initial_state = 0 \<and> itemsPerPage initial_state = 10"
proof -
  have h: "1 \<le> itemsPerPage five_by_two" by (simp add: five_by_two_def initial_state_def)
  have fv: "filteredVisitors five_by_two = [bob, erin, carol, alice, dave]"
    and k: "itemsPerPage five_by_two = 2"
    by (simp_all add: five_by_two_def initial_state_def)
  from pagination_partition [OF h]
  have p: "\<forall>n\<ge>1. currentItems (paginate n five_by_two) =
            take (nat (itemsPerPage five_by_two))
              (drop (nat ((n - 1) * itemsPerPage five_by_two)) (filteredVisitors five_by_two))"
    and lo: "int (length (filteredVisitors five_by_two))
               \<le> totalPages five_by_two * itemsPerPage five_by_two"
    and hi: "(totalPages five_by_two - 1) * itemsPerPage five_by_two
               < int (length (filteredVisitors five_by_two))"
    and c: "concat (map (\<lambda>n. currentItems (paginate (int n) five_by_two))
               [1..<Suc (nat (totalPages five_by_two))]) = filteredVisitors five_by_two"
    by blast+
  from lo hi have t: "totalPages five_by_two = 3" by (simp add: fv k)
  from p have p1: "currentItems (paginate 1 five_by_two) = [bob, erin]"
    and p2: "currentItems (paginate 2 five_by_two) = [carol, alice]"
    and p3: "currentItems (paginate 3 five_by_two) = [dave]"
    by (simp_all add: fv k)
  have z: "totalPages initial_state = 0 \<and> itemsPerPage initial_state = 10"
    by (simp add: totalPages_def initial_state_def)
  from h t p1 p2 p3 c z show ?thesis by simp
qed



section \<open>Claims about the registration form\<close>

lemma trim_empty: "trim s = [] \<longleftrightarrow> (\<forall>c\<in>set s. is_space c)"
proof
  assume "trim s = []"
  then have "\<forall>c\<in>set (dropWhile is_space s). is_space c"
    by (simp add: trim_def dropWhile_eq_Nil_conv)
  then have "dropWhile is_space s = []"
    by (metis hd_dropWhile hd_in_set)
  then show "\<forall>c\<in>set s. is_space c" by (simp add: dropWhile_eq_Nil_conv)
next
  assume "\<forall>c\<in>set s. is_space c"
  then have d: "dropWhile is_space s = []" by (simp add: dropWhile_eq_Nil_conv)
  show "trim s = []" unfolding trim_def d by simp
qed

lemma trim_empty_strip: "trim s = [] \<Longrightarrow> strip_separators s = []"
  by (simp add: trim_empty strip_separators_def filter_empty_conv)

lemma phone_accepted_iff:
  "e_phone (validateForm fd) = None \<longleftrightarrow> phoneRegex_test (strip_separators (f_phone fd))"
proof (cases "trim (f_phone fd) = []")
  case True
  then have "strip_separators (f_phone fd) = []" by (rule trim_empty_strip)
  with True show ?thesis by (simp add: validateForm_def phoneRegex_test_def)
next
  case False
  then show ?thesis by (simp add: validateForm_def)
qed

lemma handleSubmit_blocked:
  assumes "\<not> no_errors (validateForm (formData st))"
  shows "handleSubmit outcome (st, b) = (st\<lparr>submitStatus := None, errors := validateForm (formData st)\<rparr>, b)"
  using assms by (simp add: handleSubmit_def Let_def)

text \<open>
  C7. The phone number is accepted exactly when what is left of it after removing
  whitespace and hyphens is 10 to 15 digits. Submitting the form with the phone number
  \<open>12a\<close> leaves an error on the phone field and sends no request; no request is sent
  while the form has any error.
\<close>

theorem phone_validation:
  "(e_phone (validateForm fd) = None \<longleftrightarrow>
      10 \<le> length (strip_separators (f_phone fd))
      \<and> length (strip_separators (f_phone fd)) \<le> 15
      \<and> list_all is_digit (strip_separators (f_phone fd)))
   \<and> strip_separators p = filter (\<lambda>c. \<not> is_space c \<and> c \<noteq> CHR ''-'') p
   \<and> (f_phone (formData st) = ''12a'' \<longrightarrow>
        e_phone (errors (fst (handleSubmit outcome (st, b)))) \<noteq> None
        \<and> snd (handleSubmit outcome (st, b)) = b)
   \<and> (\<not> no_errors (validateForm (formData st)) \<longrightarrow>
        requests (snd (handleSubmit outcome (st, b))) = requests b)"
proof (intro conjI impI)
  show "e_phone (validateForm fd) = None \<longleftrightarrow>
      10 \<le> length (strip_separators (f_phone fd))
      \<and> length (strip_separators (f_phone fd)) \<le> 15
      \<and> list_all is_digit (strip_separators (f_phone fd))"
    by (simp add: phone_accepted_iff phoneRegex_test_def)
  show "strip_separators p = filter (\<lambda>c. \<not> is_space c \<and> c \<noteq> CHR ''-'') p"
    by (simp add: strip_separators_def)
next
  assume a: "f_phone (formData st) = ''12a''"
  have "strip_separators ''12a'' = ''12a''" by code_simp
  then have "\<not> phoneRegex_test (strip_separators (f_phone (formData st)))"
    by (simp add: a phoneRegex_test_def)
  then have e: "e_phone (validateForm (formData st)) \<noteq> None"
    by (simp add: phone_accepted_iff)
  then have n: "\<not> no_errors (validateForm (formData st))" by (simp add: no_errors_def)
  from handleSubmit_blocked [OF n, of outcome b] e
  show "e_phone (errors (fst (handleSubmit outcome (st, b)))) \<noteq> None" by simp
  from handleSubmit_blocked [OF n, of outcome b]
  show "snd (handleSubmit outcome (st, b)) = b" by simp
next
  assume "\<not> no_errors (validateForm (formData st))"
  from handleSubmit_blocked [OF this, of outcome b]
  show "requests (snd (handleSubmit outcome (st, b))) = requests b" by simp
qed

theorem phone_validation_witness:
  "f_phone (formData bad_phone_form) = ''12a''
   \<and> \<not> no_errors (validateForm (formData bad_phone_form))
   \<and> e_phone (errors (fst (handleSubmit (Fulfilled ()) (bad_phone_form, visiting))))
       = Some ''Invalid phone number (10-15 digits)''
   \<and> snd (handleSubmit (Fulfilled ()) (bad_phone_form, visiting)) = visiting
   \<and> requests (snd (handleSubmit (Fulfilled ()) (bad_phone_form, visiting))) = []
   \<and> e_phone (validateForm (formData bad_phone_form\<lparr>f_phone := ''+91 98765-43210''\<rparr>)) \<noteq> None
   \<and> e_phone (validateForm (formData bad_phone_form\<lparr>f_phone := ''098 7654-3210''\<rparr>)) = None"
proof -
  have h: "f_phone (formData bad_phone_form) = ''12a''"
    by (simp add: bad_phone_form_def fresh_form_def)
  have v: "validateForm (formData bad_phone_form)
             = \<lparr>e_name = None, e_email = None,
                e_phone = Some ''Invalid phone number (10-15 digits)'', e_purpose = None\<rparr>"
    by code_simp
  then have n: "\<not> no_errors (validateForm (formData bad_phone_form))"
    by (simp add: no_errors_def)
  have r: "requests visiting = []" by (simp add: visiting_def)
  have e: "errors (fst (handleSubmit (Fulfilled ()) (bad_phone_form, visiting)))
             = validateForm (formData bad_phone_form)"
    using n by (simp add: handleSubmit_def Let_def)
  have p1: "e_phone (validateForm (formData bad_phone_form\<lparr>f_phone := ''+91 98765-43210''\<rparr>)) \<noteq> None"
    by code_simp
  have p2: "e_phone (validateForm (formData bad_phone_form\<lparr>f_phone := ''098 7654-3210''\<rparr>)) = None"
    by code_simp
  from phone_validation [of "formData bad_phone_form" "''12a''" bad_phone_form "Fulfilled ()" visiting]
    h n v r e p1 p2
  show ?thesis by simp
qed

section \<open>Claims about the API client and the token store\<close>

lemma or_default_nonempty: "d \<noteq> [] \<Longrightarrow> or_default a d \<noteq> []"
  by (simp add: or_default_def split: option.splits)

lemma try_catch_uniform:
  assumes "\<And>error. handler error \<noteq> []"
  shows "uniform_result outcome (try_catch (apiClient req outcome b) handler)"
  using assms
  by (cases outcome) (simp_all add: uniform_result_def try_catch_def apiClient_def Let_def)

lemma login_error_message_nonempty: "login_error_message error \<noteq> []"
  by (simp add: login_error_message_def or_default_nonempty)

text \<open>
  C8. The promise of every operation of the client is fulfilled, whatever the network
  does: with \<open>Success\<close> and the data when the call went through, and with \<open>Failure\<close>
  and a non-empty message when it was rejected. The message is the one of the backend's
  payload when there is one; for the login it tells a timeout or a network error apart
  and prefers the payload's \<open>detail\<close>.
\<close>

theorem api_operations_uniform:
  fixes outcome :: "'d settled"
  defines "rejected \<equiv> (\<lambda>error. Rejected error :: 'd settled)"
  shows "uniform_result outcome (submitVisitorForm fd outcome b)
   \<and> uniform_result outcome (adminLogin em pw outcome b)
   \<and> uniform_result outcome (getVisitors outcome b)
   \<and> uniform_result outcome (getVisitorById i outcome b)
   \<and> uniform_result outcome (deleteVisitor i outcome b)
   \<and> uniform_result outcome (getDashboardStats outcome b)
   \<and> (payload_message e1 = Some m \<and> m \<noteq> [] \<longrightarrow>
        fst (submitVisitorForm fd (rejected e1) b) = Fulfilled (Failure m)
        \<and> fst (getVisitors (rejected e1) b) = Fulfilled (Failure m)
        \<and> fst (deleteVisitor i (rejected e1) b) = Fulfilled (Failure m)
        \<and> fst (getDashboardStats (rejected e1) b) = Fulfilled (Failure m))
   \<and> (code e2 = Some ''ECONNABORTED'' \<longrightarrow>
        fst (adminLogin em pw (rejected e2) b)
          = Fulfilled (Failure ''Request timed out. Please check your network connection.''))
   \<and> (code e3 \<noteq> Some ''ECONNABORTED'' \<and> message e3 \<noteq> ''Network Error''
        \<and> payload_detail e3 = Some dt \<and> dt \<noteq> [] \<longrightarrow>
        fst (adminLogin em pw (rejected e3) b) = Fulfilled (Failure dt))"
  unfolding rejected_def
proof (intro conjI impI)
  show "uniform_result outcome (submitVisitorForm fd outcome b)"
    unfolding submitVisitorForm_def by (rule try_catch_uniform) (simp add: or_default_nonempty)
  show "uniform_result outcome (adminLogin em pw outcome b)"
    unfolding adminLogin_def by (rule try_catch_uniform) (rule login_error_message_nonempty)
  show "uniform_result outcome (getVisitors outcome b)"
    unfolding getVisitors_def by (rule try_catch_uniform) (simp add: or_default_nonempty)
  show "uniform_result outcome (getVisitorById i outcome b)"
    unfolding getVisitorById_def by (rule try_catch_uniform) (simp add: or_default_nonempty)
  show "uniform_result outcome (deleteVisitor i outcome b)"
    unfolding deleteVisitor_def by (rule try_catch_uniform) (simp add: or_default_nonempty)
  show "uniform_result outcome (getDashboardStats outcome b)"
    unfolding getDashboardStats_def by (rule try_catch_uniform) (simp add: or_default_nonempty)
next
  assume a: "payload_message e1 = Some m \<and> m \<noteq> []"
  then show "fst (submitVisitorForm fd (Rejected e1) b) = Fulfilled (Failure m)"
    by (simp add: submitVisitorForm_def try_catch_def apiClient_def or_default_def)
  from a show "fst (getVisitors (Rejected e1) b) = Fulfilled (Failure m)"
    by (simp add: getVisitors_def try_catch_def apiClient_def or_default_def)
  from a show "fst (deleteVisitor i (Rejected e1) b) = Fulfilled (Failure m)"
    by (simp add: deleteVisitor_def try_catch_def apiClient_def or_default_def)
  from a show "fst (getDashboardStats (Rejected e1) b) = Fulfilled (Failure m)"
    by (simp add: getDashboardStats_def try_catch_def apiClient_def or_default_def)
next
  assume "code e2 = Some ''ECONNABORTED''"
  then show "fst (adminLogin em pw (Rejected e2) b)
          = Fulfilled (Failure ''Request timed out. Please check your network connection.'')"
    by (simp add: adminLogin_def try_catch_def apiClient_def login_error_message_def)
next
  assume "code e3 \<noteq> Some ''ECONNABORTED'' \<and> message e3 \<noteq> ''Network Error''
        \<and> payload_detail e3 = Some dt \<and> dt \<noteq> []"
  then show "fst (adminLogin em pw (Rejected e3) b) = Fulfilled (Failure dt)"
    by (simp add: adminLogin_def try_catch_def apiClient_def login_error_message_def
                  or_default_def)
qed

theorem api_operations_uniform_witness:
  "payload_message server_error = Some ''Database unavailable''
   \<and> code timed_out = Some ''ECONNABORTED''
   \<and> code unauthorized \<noteq> Some ''ECONNABORTED'' \<and> message unauthorized \<noteq> ''Network Error''
   \<and> payload_detail unauthorized = Some ''Token expired''
   \<and> fst (submitVisitorForm ann (Rejected server_error :: unit settled) signed_in)
        = Fulfilled (Failure ''Database unavailable'')
   \<and> fst (deleteVisitor 7 (Rejected server_error :: unit settled) signed_in)
        = Fulfilled (Failure ''Database unavailable'')
   \<and> fst (adminLogin ''admin@example.com'' ''secret1'' (Rejected timed_out :: unit settled) signed_in)
        = Fulfilled (Failure ''Request timed out. Please check your network connection.'')
   \<and> fst (adminLogin ''admin@example.com'' ''secret1'' (Rejected unauthorized :: unit settled) signed_in)
        = Fulfilled (Failure ''Token expired'')
   \<and> uniform_result (Rejected timed_out :: unit settled)
         (getVisitors (Rejected timed_out) signed_in)
   \<and> fst (getVisitors (Rejected timed_out :: unit settled) signed_in)
        = Fulfilled (Failure ''Failed to fetch visitors. Please try again.'')"
proof -
  have h1: "payload_message server_error = Some ''Database unavailable''
            \<and> ''Database unavailable'' \<noteq> []"
    by (simp add: payload_message_def server_error_def)
  have h2: "code timed_out = Some ''ECONNABORTED''" by (simp add: timed_out_def)
  have h3: "code unauthorized \<noteq> Some ''ECONNABORTED'' \<and> message unauthorized \<noteq> ''Network Error''
        \<and> payload_detail unauthorized = Some ''Token expired'' \<and> ''Token expired'' \<noteq> []"
    by (simp add: payload_detail_def unauthorized_def)
  have g: "fst (getVisitors (Rejected timed_out :: unit settled) signed_in)
        = Fulfilled (Failure ''Failed to fetch visitors. Please try again.'')"
    by (simp add: getVisitors_def try_catch_def apiClient_def or_default_def
          payload_message_def timed_out_def)
  note t = api_operations_uniform
         [of "Rejected timed_out :: unit settled" ann signed_in
             "''admin@example.com''" "''secret1''" 7 server_error "''Database unavailable''"
             timed_out unauthorized "''Token expired''"]
  from t h1 h2 h3 g show ?thesis by simp
qed

lemma on_rejected_401:
  assumes "map_option status (response error) = Some 401"
  shows "localStorage (on_rejected error b) ''authToken'' = None"
    and "localStorage (on_rejected error b) ''adminUser'' = None"
  using assms by (simp_all add: on_rejected_def Let_def)

lemma on_rejected_token:
  "localStorage (on_rejected error b) ''authToken'' = None
   \<or> localStorage (on_rejected error b) ''authToken'' = localStorage b ''authToken''"
  by (simp add: on_rejected_def Let_def)

lemma apiClient_401:
  assumes "map_option status (response error) = Some 401"
  shows "localStorage (snd (apiClient req (Rejected error) b)) ''authToken'' = None"
    and "localStorage (snd (apiClient req (Rejected error) b)) ''adminUser'' = None"
  using assms by (simp_all add: apiClient_def Let_def on_rejected_401)

lemma apiClient_token:
  "localStorage (snd (apiClient req outcome b)) ''authToken'' = None
   \<or> localStorage (snd (apiClient req outcome b)) ''authToken'' = localStorage b ''authToken''"
  using on_rejected_token [of _ "b\<lparr>requests := requests b @ [req]\<rparr>"]
  by (cases outcome) (simp_all add: apiClient_def Let_def)

lemma snd_try_catch: "snd (try_catch call handler) = snd call"
  by (cases call; cases "fst call") (simp_all add: try_catch_def)

lemma isAuthenticated_iff:
  "isAuthenticated b \<longleftrightarrow> (\<exists>t. localStorage b ''authToken'' = Some t \<and> t \<noteq> [])"
  by (simp add: isAuthenticated_def getAuthToken_def split: option.splits)

lemma stays_unauthenticated:
  assumes "\<not> isAuthenticated b"
  shows "\<not> isAuthenticated (snd (apiClient req outcome b))"
  using assms apiClient_token [of req outcome b] by (auto simp: isAuthenticated_iff)

lemma snd_api_call: "snd (api_call req outcome b) = snd (apiClient req outcome b)"
  by (cases req)
     (simp_all add: api_call_def submitVisitorForm_def adminLogin_def getVisitors_def
        getVisitorById_def deleteVisitor_def snd_try_catch)

lemma snd_getDashboardStats:
  "snd (getDashboardStats outcome b) = snd (apiClient GetEntries outcome b)"
  by (simp add: getDashboardStats_def snd_try_catch)

lemma api_calls_stay_unauthenticated:
  "\<not> isAuthenticated b \<Longrightarrow> \<not> isAuthenticated (api_calls cs b)"
  unfolding api_calls_def
  by (induction cs arbitrary: b) (simp_all add: snd_api_call stays_unauthenticated)

text \<open>
  C9. When a call of any operation is answered with status 401, the token and the user
  profile are removed from the store; from then on, through any further calls, the check
  of the protected route says unauthenticated and redirects to the login screen. Whether
  the check passes depends on the stored token only: it passes exactly when a non-empty
  token is stored.
\<close>

theorem unauthorized_clears_session:
  fixes cs :: "(request \<times> 'd settled) list"
  defines "after \<equiv> (\<lambda>req error b. snd (api_call req (Rejected error :: 'd settled) b))"
  shows "(map_option status (response error) = Some 401 \<longrightarrow>
      localStorage (after req error b) ''authToken'' = None
      \<and> localStorage (after req error b) ''adminUser'' = None
      \<and> localStorage (snd (getDashboardStats (Rejected error :: 'd settled) b)) ''authToken''
          = None
      \<and> localStorage (snd (getDashboardStats (Rejected error :: 'd settled) b)) ''adminUser''
          = None
      \<and> \<not> isAuthenticated (api_calls cs (after req error b))
      \<and> ProtectedRoute (api_calls cs (after req error b)) = Navigate ''/admin/login'')
   \<and> (isAuthenticated b \<longleftrightarrow> (\<exists>t. localStorage b ''authToken'' = Some t \<and> t \<noteq> []))
   \<and> (ProtectedRoute b = Children \<longleftrightarrow> isAuthenticated b)"
proof (intro conjI impI)
  assume a: "map_option status (response error) = Some 401"
  show t: "localStorage (after req error b) ''authToken'' = None"
    by (simp add: after_def snd_api_call apiClient_401 [OF a])
  show "localStorage (after req error b) ''adminUser'' = None"
    by (simp add: after_def snd_api_call apiClient_401 [OF a])
  show "localStorage (snd (getDashboardStats (Rejected error :: 'd settled) b)) ''authToken''
          = None"
    by (simp add: snd_getDashboardStats apiClient_401 [OF a])
  show "localStorage (snd (getDashboardStats (Rejected error :: 'd settled) b)) ''adminUser''
          = None"
    by (simp add: snd_getDashboardStats apiClient_401 [OF a])
  from t have "\<not> isAuthenticated (after req error b)" by (simp add: isAuthenticated_iff)
  then show u: "\<not> isAuthenticated (api_calls cs (after req error b))"
    by (rule api_calls_stay_unauthenticated)
  then show "ProtectedRoute (api_calls cs (after req error b)) = Navigate ''/admin/login''"
    by (simp add: ProtectedRoute_def)
next
  show "isAuthenticated b \<longleftrightarrow> (\<exists>t. localStorage b ''authToken'' = Some t \<and> t \<noteq> [])"
    by (rule isAuthenticated_iff)
  show "ProtectedRoute b = Children \<longleftrightarrow> isAuthenticated b"
    by (simp add: ProtectedRoute_def)
qed

theorem unauthorized_clears_session_witness:
  "map_option status (response unauthorized) = Some 401
   \<and> isAuthenticated signed_in
   \<and> localStorage (snd (api_call GetEntries (Rejected unauthorized :: unit settled) signed_in))
        ''authToken'' = None
   \<and> localStorage (snd (api_call GetEntries (Rejected unauthorized :: unit settled) signed_in))
        ''adminUser'' = None
   \<and> \<not> isAuthenticated
         (api_calls [(DeleteEntry 2, Fulfilled ())]
            (snd (api_call GetEntries (Rejected unauthorized :: unit settled) signed_in)))
   \<and> ProtectedRoute
         (api_calls [(DeleteEntry 2, Fulfilled ())]
            (snd (api_call GetEntries (Rejected unauthorized :: unit settled) signed_in)))
        = Navigate ''/admin/login''"
proof -
  have h: "map_option status (response unauthorized) = Some 401"
    by (simp add: unauthorized_def)
  have s: "isAuthenticated signed_in"
    by (simp add: isAuthenticated_def getAuthToken_def signed_in_def)
  note t = unauthorized_clears_session
         [of unauthorized GetEntries signed_in
             "[(DeleteEntry 2, Fulfilled ())] :: (request \<times> unit settled) list"]
  from h s t [THEN conjunct1, THEN mp, OF h] show ?thesis by (simp add: api_calls_def)
qed

section \<open>Claims about the date filter and the dashboard\<close>

lemma date_filter_retains:
  assumes "\<forall>v\<in>set xs. time_of v \<noteq> None"
  shows "date_filter a b xs =
           Inr (filter (\<lambda>v. (a = [] \<or> str_ge (iso_date (the (time_of v))) a)
                            \<and> (b = [] \<or> str_le (iso_date (the (time_of v))) b)) xs)"
proof -
  have s: "filter_e (start_pred a) ys
             = Inr (filter (\<lambda>v. str_ge (iso_date (the (time_of v))) a) ys)"
    if "set ys \<subseteq> set xs" for ys
  proof (rule filter_e_total)
    fix v assume "v \<in> set ys"
    with that assms obtain t where "time_of v = Some t" by auto
    then show "start_pred a v = Inr (str_ge (iso_date (the (time_of v))) a)"
      by (simp add: start_pred_def visit_date_def toISOString_date_def)
  qed
  have e: "filter_e (end_pred b) ys
             = Inr (filter (\<lambda>v. str_le (iso_date (the (time_of v))) b) ys)"
    if "set ys \<subseteq> set xs" for ys
  proof (rule filter_e_total)
    fix v assume "v \<in> set ys"
    with that assms obtain t where "time_of v = Some t" by auto
    then show "end_pred b v = Inr (str_le (iso_date (the (time_of v))) b)"
      by (simp add: end_pred_def visit_date_def toISOString_date_def)
  qed
  show ?thesis
    by (cases "a = []"; cases "b = []") (simp_all add: date_filter_def s e)
qed

lemma date_filter_throws:
  "time_of v = None \<Longrightarrow> a \<noteq> [] \<or> b \<noteq> [] \<Longrightarrow> date_filter a b [v] = Inl RangeError"
  by (auto simp: date_filter_def start_pred_def end_pred_def visit_date_def
        toISOString_date_def)

text \<open>
  C2, the code at an input where it departs from the claim. Carol's check-in is
  2024-01-14T20:30:00Z, which a browser at UTC+05:30 shows as 15 January 2024, 02:00.
  The filter compares the date part of \<open>toISOString()\<close>, the calendar date in UTC, with
  the bounds: with both bounds at 2024-01-15, her local check-in date, the record is
  dropped, and with both bounds at 2024-01-14 it is kept.
\<close>

theorem date_filter_utc_not_local:
  "time_of carol = Some 1705264200000
   \<and> local_date ist 1705264200000 = ''2024-01-15''
   \<and> visit_date carol = Inr ''2024-01-14''
   \<and> date_filter ''2024-01-15'' ''2024-01-15'' [carol] = Inr []
   \<and> date_filter ''2024-01-14'' ''2024-01-14'' [carol] = Inr [carol]"
  by code_simp
















text \<open>
  The count of the month after \<open>setDate\<close> has moved \<open>now\<close> into the month before: on
  Wednesday 1 May 2024 the week starts on Sunday 28 April, the month is taken to start
  on 1 April, and a check-in of 10 April is counted for this month.
\<close>

lemma month_count_slip:
  "local_date ist (now_ms ist) = ''2024-05-01''
   \<and> local_date ist (month_start ist) = ''2024-04-01''
   \<and> local_date ist 1712730600000 = ''2024-04-10''
   \<and> this_month_visitors (calculate_stats ist [checked_in_at 1712730600000] None) = 1"
  by code_simp





end
